theory Spec2Isabelle
  imports Main
begin

section \<open>JavaScript values\<close>

text \<open>
  The handlers are JavaScript and their data is JSON and BSON. A value is one of the
  shapes the handlers read or write. Numbers are integers here (timestamps are
  milliseconds since the epoch); a timestamp object is \<open>Date\<close> of its milliseconds,
  and \<open>DateOf v\<close> stands for \<open>new Date(v)\<close> of a value that is not a number
  (date parsing is left uninterpreted).
\<close>

datatype jsval =
    Undefined
  | Null
  | Bool bool
  | Num int
  | Str string
  | Arr "jsval list"
  | Date int
  | DateOf jsval

text \<open>What \<open>if (v)\<close>, \<open>!v\<close> and \<open>v || d\<close> test.\<close>

fun truthy :: "jsval \<Rightarrow> bool" where
  "truthy Undefined = False"
| "truthy Null = False"
| "truthy (Bool b) = b"
| "truthy (Num n) = (n \<noteq> 0)"
| "truthy (Str s) = (s \<noteq> [])"
| "truthy (Arr vs) = True"
| "truthy (Date d) = True"
| "truthy (DateOf v) = True"

definition js_or :: "jsval \<Rightarrow> jsval \<Rightarrow> jsval" where
  "js_or v d = (if truthy v then v else d)"

section \<open>Admission limiter\<close>

text \<open>
  \<^verbatim>\<open>const rateLimitMap = new Map()\<close> is the module's state: for each bot id the
  list of the times of its admitted requests. \<^verbatim>\<open>checkRateLimit(botId, maxRequests =
  100, windowMs = 3600000)\<close> reads the clock once (\<open>now\<close>) and returns whether the request
  is admitted, together with the map as it leaves it.
\<close>

type_synonym rate_limit_map = "string \<rightharpoonup> int list"

definition checkRateLimit ::
  "string \<Rightarrow> nat \<Rightarrow> int \<Rightarrow> int \<Rightarrow> rate_limit_map \<Rightarrow> bool \<times> rate_limit_map" where
  "checkRateLimit botId maxRequests windowMs now rateLimitMap =
     (let windowStart = now - windowMs;
          rateLimitMap1 =
            (if rateLimitMap botId = None then rateLimitMap(botId \<mapsto> []) else rateLimitMap);
          requests = (case rateLimitMap1 botId of Some r \<Rightarrow> r | None \<Rightarrow> []);
          validRequests = filter (\<lambda>time. time > windowStart) requests
      in if length validRequests \<ge> maxRequests then (False, rateLimitMap1)
         else (True, rateLimitMap1(botId \<mapsto> validRequests @ [now])))"

text \<open>The defaults of the two optional parameters.\<close>

definition maxRequests_default :: nat where
  "maxRequests_default = 100"

definition windowMs_default :: int where
  "windowMs_default = 3600000"

text \<open>
  A run of calls for one bot id, one call per clock reading, the map threaded through;
  the result lists the answers in order.
\<close>

fun admissions ::
  "string \<Rightarrow> nat \<Rightarrow> int \<Rightarrow> int list \<Rightarrow> rate_limit_map \<Rightarrow> bool list \<times> rate_limit_map" where
  "admissions botId q w [] m = ([], m)"
| "admissions botId q w (t # ts) m =
     (case checkRateLimit botId q w t m of
        (ok, m1) \<Rightarrow> (case admissions botId q w ts m1 of (oks, m2) \<Rightarrow> (ok # oks, m2)))"

text \<open>
  The limiter as the specification words it: the stored timestamps older than
  \<open>now - window\<close> are discarded, the rest are counted against the quota.
\<close>

definition admit_spec :: "nat \<Rightarrow> int \<Rightarrow> int \<Rightarrow> int list \<Rightarrow> bool \<times> int list" where
  "admit_spec quota window now stored =
     (let remaining = filter (\<lambda>t. \<not> t < now - window) stored
      in if quota \<le> length remaining then (False, remaining) else (True, remaining @ [now]))"


section \<open>Strings\<close>

text \<open>
  A string is a list of characters, one \<open>char\<close> per code unit; code units above 255
  are outside this model. White space is what \<^verbatim>\<open>\s\<close> and \<^verbatim>\<open>trim()\<close> take for it in that
  range: tab, line feed, vertical tab, form feed, carriage return, space and the
  no-break space.
\<close>

definition is_space :: "char \<Rightarrow> bool" where
  "is_space c = (c \<in> set [CHR 0x09, CHR 0x0A, CHR 0x0B, CHR 0x0C, CHR 0x0D, CHR 0x20, CHR 0xA0])"

definition trim :: "string \<Rightarrow> string" where
  "trim s = rev (dropWhile is_space (rev (dropWhile is_space s)))"

definition startsWith :: "string \<Rightarrow> string \<Rightarrow> bool" where
  "startsWith s p = (take (length p) s = p)"

text \<open>\<^verbatim>\<open>s.split(c)\<close> for a one-character separator: never an empty array.\<close>

fun split :: "char \<Rightarrow> string \<Rightarrow> string list" where
  "split c [] = [[]]"
| "split c (x # xs) =
     (if x = c then [] # split c xs
      else (case split c xs of [] \<Rightarrow> [[x]] | y # ys \<Rightarrow> (x # y) # ys))"

text \<open>\<^verbatim>\<open>s.split(c)[0]\<close>.\<close>

definition first_part :: "char \<Rightarrow> string \<Rightarrow> string" where
  "first_part c s = (case split c s of [] \<Rightarrow> [] | p # ps \<Rightarrow> p)"

text \<open>\<^verbatim>\<open>Array.from(new Set(xs))\<close>: the elements in the order of their first occurrence.\<close>

fun set_add_all :: "'a list \<Rightarrow> 'a list \<Rightarrow> 'a list" where
  "set_add_all seen [] = seen"
| "set_add_all seen (x # xs) = set_add_all (if x \<in> set seen then seen else seen @ [x]) xs"

definition array_from_set :: "'a list \<Rightarrow> 'a list" where
  "array_from_set xs = set_add_all [] xs"

section \<open>URL extraction\<close>

text \<open>
  \<^verbatim>\<open>const URL_REGEX = /https?:\/\/\S+/gi\<close>. \<open>scheme_length s\<close> is the length of the match of
  \<^verbatim>\<open>https?:\/\/\<close> at the head of \<open>s\<close>, letters in either case; \<open>url_at s\<close> is the match of
  the whole expression at the head of \<open>s\<close> with the text after it; \<open>match_all\<close> is
  \<^verbatim>\<open>text.match(URL_REGEX) || []\<close>: the matches from left to right, the search resuming
  after each match.
\<close>

definition http_at :: "string \<Rightarrow> bool" where
  "http_at s =
     (case s of
        a # b # c # d # r \<Rightarrow>
          a \<in> set ''hH'' \<and> b \<in> set ''tT'' \<and> c \<in> set ''tT'' \<and> d \<in> set ''pP''
      | _ \<Rightarrow> False)"

definition scheme_length :: "string \<Rightarrow> nat option" where
  "scheme_length s =
     (if \<not> http_at s then None
      else if (case drop 4 s of [] \<Rightarrow> False | e # r \<Rightarrow> e \<in> set ''sS'')
              \<and> take 3 (drop 5 s) = ''://'' then Some 8
      else if take 3 (drop 4 s) = ''://'' then Some 7
      else None)"

definition url_at :: "string \<Rightarrow> (string \<times> string) option" where
  "url_at s =
     (case scheme_length s of
        None \<Rightarrow> None
      | Some n \<Rightarrow>
          (let rest = takeWhile (\<lambda>c. \<not> is_space c) (drop n s)
           in if rest = [] then None
              else Some (take n s @ rest, drop (n + length rest) s)))"

lemma http_at_length: "http_at s \<Longrightarrow> 4 \<le> length s"
  by (auto simp: http_at_def split: list.splits)

lemma url_at_shorter: "url_at s = Some (u, r) \<Longrightarrow> length r < length s"
  by (auto simp: url_at_def scheme_length_def Let_def split: option.splits if_splits
      dest!: http_at_length)

function match_all :: "string \<Rightarrow> string list" where
  "match_all [] = []"
| "match_all (c # cs) =
     (case url_at (c # cs) of
        Some (u, r) \<Rightarrow> u # match_all r
      | None \<Rightarrow> match_all cs)"
  by pat_completeness auto
termination match_all
  by (relation "measure length") (auto dest: url_at_shorter)

text \<open>\<^verbatim>\<open>u.replace(/[.,);\]"']+$/g, "")\<close>: the longest run of these seven characters at the end of \<open>u\<close> is removed.\<close>

definition trailing_punctuation :: "char list" where
  "trailing_punctuation = [CHR ''.'', CHR '','', CHR '')'', CHR '';'', CHR '']'', CHR 0x22, CHR 0x27]"

definition strip_trailing :: "string \<Rightarrow> string" where
  "strip_trailing u = rev (dropWhile (\<lambda>c. c \<in> set trailing_punctuation) (rev u))"

text \<open>\<^verbatim>\<open>const urls = (tweetText.match(URL_REGEX) || []).map((u) => u.replace(...))\<close>.\<close>

definition extract_urls :: "string \<Rightarrow> string list" where
  "extract_urls tweetText = map strip_trailing (match_all tweetText)"


section \<open>The links collection\<close>

text \<open>
  A document of the collection is its fields in order, each with its value; a field that
  is not listed reads as \<open>Undefined\<close>. The \<^verbatim>\<open>_id\<close> the database adds is not
  modelled: no handler reads it, and the read handler projects it away.
\<close>

type_synonym document = "(string \<times> jsval) list"

definition field :: "document \<Rightarrow> string \<Rightarrow> jsval" where
  "field d k = (case map_of d k of None \<Rightarrow> Undefined | Some v \<Rightarrow> v)"

fun put :: "string \<Rightarrow> jsval \<Rightarrow> document \<Rightarrow> document" where
  "put k v [] = [(k, v)]"
| "put k v (p # ps) = (if fst p = k then (k, v) # ps else p # put k v ps)"

text \<open>The driver writes \<^verbatim>\<open>undefined\<close> as null (its default, \<^verbatim>\<open>ignoreUndefined: false\<close>).\<close>

fun to_bson :: "jsval \<Rightarrow> jsval" where
  "to_bson Undefined = Null"
| "to_bson (Arr vs) = Arr (map to_bson vs)"
| "to_bson v = v"

text \<open>
  An update document as \<^verbatim>\<open>updateOne\<close> receives it from the submit handler: the fields
  of its \<^verbatim>\<open>$setOnInsert\<close>, \<^verbatim>\<open>$set\<close> and \<^verbatim>\<open>$addToSet\<close> operators, in this order.
\<close>

record update_doc =
  op_setOnInsert :: "(string \<times> jsval) list"
  op_set :: "(string \<times> jsval) list"
  op_addToSet :: "(string \<times> jsval) list"

datatype store_error =
    ConflictingUpdateOperators string
  | AddToSetNonArray string

text \<open>
  The database parses an update before it looks for a document: two operators of one
  update that name the same path are refused (error 40, ConflictingUpdateOperators:
  updating the path would create a conflict at that path), whether or not the update
  would insert, and nothing is written. \<open>conflicting_path\<close> is the first path that a
  later operator names again. (All paths of this code are top-level field names, so
  two paths conflict when they are equal.)
\<close>

fun first_repeated :: "string list \<Rightarrow> string list \<Rightarrow> string option" where
  "first_repeated seen [] = None"
| "first_repeated seen (k # ks) =
     (if k \<in> set seen then Some k else first_repeated (seen @ [k]) ks)"

definition conflicting_path :: "update_doc \<Rightarrow> string option" where
  "conflicting_path u =
     first_repeated [] (map fst (op_setOnInsert u) @ map fst (op_set u) @ map fst (op_addToSet u))"

fun apply_set :: "(string \<times> jsval) list \<Rightarrow> document \<Rightarrow> document" where
  "apply_set [] d = d"
| "apply_set ((k, v) # kvs) d = apply_set kvs (put k (to_bson v) d)"

text \<open>
  \<^verbatim>\<open>$addToSet\<close> creates the array when the field is missing, appends the value when the
  array does not hold it, leaves the array alone when it does, and fails on a field that
  is not an array.
\<close>

fun apply_addToSet :: "(string \<times> jsval) list \<Rightarrow> document \<Rightarrow> store_error + document" where
  "apply_addToSet [] d = Inr d"
| "apply_addToSet ((k, v) # kvs) d =
     (case map_of d k of
        None \<Rightarrow> apply_addToSet kvs (put k (Arr [to_bson v]) d)
      | Some (Arr vs) \<Rightarrow>
          apply_addToSet kvs (if to_bson v \<in> set vs then d else put k (Arr (vs @ [to_bson v])) d)
      | Some other \<Rightarrow> Inl (AddToSetNonArray k))"

definition apply_update :: "bool \<Rightarrow> update_doc \<Rightarrow> document \<Rightarrow> store_error + document" where
  "apply_update inserting u d =
     apply_addToSet (op_addToSet u)
       (apply_set (op_set u) (if inserting then apply_set (op_setOnInsert u) d else d))"

text \<open>The filter \<^verbatim>\<open>{ url }\<close>: the field equals the string, or is an array that holds it.\<close>

definition url_matches :: "string \<Rightarrow> document \<Rightarrow> bool" where
  "url_matches url d =
     (case field d ''url'' of
        Str s \<Rightarrow> s = url
      | Arr vs \<Rightarrow> Str url \<in> set vs
      | _ \<Rightarrow> False)"

record update_result =
  upserted :: bool
  modifiedCount :: nat

text \<open>
  The first matching document is updated in place; \<^verbatim>\<open>modifiedCount\<close> is 1 when the
  update changed it and 0 when it left every field as it was. \<open>None\<close>: no document
  matches.
\<close>

fun update_first ::
  "string \<Rightarrow> update_doc \<Rightarrow> document list \<Rightarrow> (store_error + update_result \<times> document list) option" where
  "update_first url u [] = None"
| "update_first url u (d # ds) =
     (if url_matches url d then
        Some (case apply_update False u d of
                Inl e \<Rightarrow> Inl e
              | Inr d' \<Rightarrow>
                  Inr (\<lparr>upserted = False, modifiedCount = (if d' = d then 0 else 1)\<rparr>, d' # ds))
      else (case update_first url u ds of
              None \<Rightarrow> None
            | Some (Inl e) \<Rightarrow> Some (Inl e)
            | Some (Inr (r, ds')) \<Rightarrow> Some (Inr (r, d # ds'))))"

text \<open>
  \<^verbatim>\<open>col.updateOne({ url }, update, { upsert: true })\<close>. With no matching document the
  upsert inserts one built from the filter's field and the three operators, and reports
  an \<^verbatim>\<open>upsertedId\<close>.
\<close>

definition updateOne ::
  "string \<Rightarrow> update_doc \<Rightarrow> document list \<Rightarrow> store_error + update_result \<times> document list" where
  "updateOne url u docs =
     (case conflicting_path u of
        Some p \<Rightarrow> Inl (ConflictingUpdateOperators p)
      | None \<Rightarrow>
          (case update_first url u docs of
             Some r \<Rightarrow> r
           | None \<Rightarrow>
               (case apply_update True u [(''url'', Str url)] of
                  Inl e \<Rightarrow> Inl e
                | Inr d \<Rightarrow> Inr (\<lparr>upserted = True, modifiedCount = 0\<rparr>, docs @ [d]))))"

section \<open>The submit handler\<close>

text \<open>
  The module's state between requests: the limiter's map, whether the shared client has
  been created, and the database (the documents of the collection and the names of its
  indexes).
\<close>

record server =
  rateLimitMap :: rate_limit_map
  client :: bool
  links :: "document list"
  indexes :: "string list"

record env =
  MONGODB_URI :: "string option"
  VALID_TOKENS :: "string option"

record request =
  req_method :: string
  authorization :: "string option"
  ip :: "string option"
  body :: "document option"

datatype response =
    Error nat string
  | NoUrls
  | Success (inserted: nat) (updated: nat) (processed_urls: nat) (bot_id: string)

text \<open>\<^verbatim>\<open>const botId = token.split('.')[0] || req.ip || 'anonymous'\<close>.\<close>

definition botId_of :: "string \<Rightarrow> string option \<Rightarrow> string" where
  "botId_of token req_ip =
     (if first_part CHR ''.'' token \<noteq> [] then first_part CHR ''.'' token
      else (case req_ip of
              Some a \<Rightarrow> if a \<noteq> [] then a else ''anonymous''
            | None \<Rightarrow> ''anonymous''))"

text \<open>\<^verbatim>\<open>(process.env.VALID_TOKENS || '').split(',').filter(t => t.trim())\<close>.\<close>

definition validTokens :: "env \<Rightarrow> string list" where
  "validTokens e =
     filter (\<lambda>t. trim t \<noteq> [])
       (split CHR '','' (case VALID_TOKENS e of None \<Rightarrow> [] | Some v \<Rightarrow> v))"

text \<open>\<^verbatim>\<open>new Date(v)\<close>.\<close>

definition new_Date :: "jsval \<Rightarrow> jsval" where
  "new_Date v = (case v of Num n \<Rightarrow> Date n | Date d \<Rightarrow> Date d | _ \<Rightarrow> DateOf v)"

text \<open>The \<^verbatim>\<open>metadata\<close> object of the loop, and the update built from it for one URL.\<close>

definition metadata :: "document \<Rightarrow> string \<Rightarrow> string \<Rightarrow> int \<Rightarrow> (string \<times> jsval) list" where
  "metadata b tweetText botId now =
     [(''tweet_id'', field b ''tweet_id''),
      (''author_id'', field b ''author_id''),
      (''created_at'',
         if truthy (field b ''created_at'') then new_Date (field b ''created_at'') else Null),
      (''severity_score'', js_or (field b ''severity_score'') (Num 0)),
      (''categories'', js_or (field b ''categories'') (Arr [])),
      (''matched_keywords'', js_or (field b ''matched_keywords'') (Arr [])),
      (''source_account'', field b ''source_account''),
      (''collection_method'', js_or (field b ''collection_method'') (Str ''api_upload'')),
      (''tweet_text'', Str tweetText),
      (''bot_id'', Str botId),
      (''updated_at'', Date now)]"

definition merge_update :: "document \<Rightarrow> string \<Rightarrow> string \<Rightarrow> int \<Rightarrow> string \<Rightarrow> update_doc" where
  "merge_update b tweetText botId now url =
     \<lparr>op_setOnInsert =
        [(''url'', Str url), (''created_at'', Date now), (''first_seen_bot'', Str botId)],
      op_set = metadata b tweetText botId now,
      op_addToSet = [(''seen_by_bots'', Str botId)]\<rparr>"

text \<open>
  The loop over the distinct URLs, with the two counters and the documents threaded
  through. An error of \<^verbatim>\<open>updateOne\<close> leaves the loop; what earlier rounds wrote stays
  written.
\<close>

fun merge_loop ::
  "document \<Rightarrow> string \<Rightarrow> string \<Rightarrow> int \<Rightarrow> string list \<Rightarrow> nat \<Rightarrow> nat \<Rightarrow> document list
     \<Rightarrow> (store_error \<times> document list) + (nat \<times> nat \<times> document list)" where
  "merge_loop b tweetText botId now [] ins upd docs = Inr (ins, upd, docs)"
| "merge_loop b tweetText botId now (url # urls) ins upd docs =
     (case updateOne url (merge_update b tweetText botId now url) docs of
        Inl e \<Rightarrow> Inl (e, docs)
      | Inr (result, docs') \<Rightarrow>
          if upserted result then merge_loop b tweetText botId now urls (ins + 1) upd docs'
          else if modifiedCount result > 0 then
            merge_loop b tweetText botId now urls ins (upd + 1) docs'
          else merge_loop b tweetText botId now urls ins upd docs')"

text \<open>
  The four \<^verbatim>\<open>createIndex\<close> calls inside their own \<^verbatim>\<open>try\<close>. The first asks for a unique
  index on \<^verbatim>\<open>url\<close> and fails when two documents share a value there; the failure is
  logged and the other three calls are skipped.
\<close>

definition add_index :: "string \<Rightarrow> string list \<Rightarrow> string list" where
  "add_index n ns = (if n \<in> set ns then ns else ns @ [n])"

definition ensure_indexes :: "document list \<Rightarrow> string list \<Rightarrow> string list" where
  "ensure_indexes docs ns =
     (if ''url_1'' \<notin> set ns \<and> \<not> distinct (map (\<lambda>d. to_bson (field d ''url'')) docs) then ns
      else add_index ''severity_score_-1''
             (add_index ''created_at_-1'' (add_index ''tweet_id_1'' (add_index ''url_1'' ns))))"

text \<open>
  The handler of \<^verbatim>\<open>POST /api/ingest\<close>. \<open>now_ms\<close> is the clock as \<^verbatim>\<open>checkRateLimit\<close>
  reads it and \<open>now_date\<close> the clock as the later \<^verbatim>\<open>new Date()\<close> reads it. Whatever is
  thrown inside the handler is caught at its end and answered with status 500; the
  state changes made before the throw remain. The connection to the database is taken
  to succeed.
\<close>

definition ingest_handler :: "env \<Rightarrow> int \<Rightarrow> int \<Rightarrow> request \<Rightarrow> server \<Rightarrow> response \<times> server" where
  "ingest_handler e now_ms now_date req s =
     (if req_method req \<noteq> ''POST'' then (Error 405 ''Method not allowed'', s)
      else
        let auth = (case authorization req of None \<Rightarrow> [] | Some a \<Rightarrow> a) in
        if \<not> startsWith auth ''Bearer '' then (Error 401 ''Bearer token required'', s)
        else
          let token = drop 7 auth;
              botId = botId_of token (ip req);
              (admitted, m) =
                checkRateLimit botId maxRequests_default windowMs_default now_ms (rateLimitMap s);
              s1 = s\<lparr>rateLimitMap := m\<rparr>
          in
          if \<not> admitted then (Error 429 ''Rate limit exceeded'', s1)
          else if token \<notin> set (validTokens e) then (Error 401 ''Invalid token'', s1)
          else
            let b = (case body req of None \<Rightarrow> [] | Some d \<Rightarrow> d) in
            if \<not> truthy (field b ''tweet_text'') then
              (Error 400 ''Missing required fields: tweet_text, tweet_id'', s1)
            else if \<not> truthy (field b ''tweet_id'') then
              (Error 400 ''Missing required fields: tweet_text, tweet_id'', s1)
            else
              (case field b ''tweet_text'' of
                 Str tweetText \<Rightarrow>
                   let urls = extract_urls tweetText in
                   if urls = [] then (NoUrls, s1)
                   else if MONGODB_URI e = None \<or> MONGODB_URI e = Some [] then
                     (Error 500 ''Server error'', s1)
                   else
                     let ixs = ensure_indexes (links s1) (indexes s1);
                         s2 = s1\<lparr>client := True, indexes := ixs\<rparr>
                     in
                     (case merge_loop b tweetText botId now_date (array_from_set urls) 0 0 (links s2) of
                        Inl (err, docs) \<Rightarrow> (Error 500 ''Server error'', s2\<lparr>links := docs\<rparr>)
                      | Inr (ins, upd, docs) \<Rightarrow>
                          (Success ins upd (length urls) botId, s2\<lparr>links := docs\<rparr>))
               | _ \<Rightarrow> (Error 500 ''Server error'', s1)))"

text \<open>The bot id that the handler derives for a request that carries a Bearer header.\<close>

definition request_botId :: "request \<Rightarrow> string" where
  "request_botId req =
     botId_of (drop 7 (case authorization req of None \<Rightarrow> [] | Some a \<Rightarrow> a)) (ip req)"


section \<open>The read handler\<close>

text \<open>
  \<^verbatim>\<open>req.query\<close> of \<^verbatim>\<open>GET /api/links\<close>: each parameter is absent or a string (a parameter
  given several times, which arrives as an array, is outside this model).
\<close>

record query =
  page :: "string option"
  limit :: "string option"
  search :: "string option"
  severity :: "string option"
  dateFrom :: "string option"
  dateTo :: "string option"

text \<open>
  What \<^verbatim>\<open>!req.query.page\<close> negates: the parameter is there and is not the empty string.
\<close>

definition supplied :: "string option \<Rightarrow> bool" where
  "supplied p = (case p of None \<Rightarrow> False | Some v \<Rightarrow> v \<noteq> [])"

text \<open>A destructuring default: it applies when the parameter is absent.\<close>

definition default_to :: "string \<Rightarrow> string option \<Rightarrow> string" where
  "default_to d p = (case p of None \<Rightarrow> d | Some v \<Rightarrow> v)"

text \<open>
  \<^verbatim>\<open>parseInt(s, 10)\<close>: leading white space, an optional sign, then the longest run of
  decimal digits; \<open>None\<close> is NaN.
\<close>

definition digit_chars :: "char list" where
  "digit_chars = ''0123456789''"

fun digit_value :: "char list \<Rightarrow> char \<Rightarrow> nat" where
  "digit_value [] c = 0"
| "digit_value (d # ds) c = (if c = d then 0 else Suc (digit_value ds c))"

fun decimal :: "nat \<Rightarrow> string \<Rightarrow> nat" where
  "decimal acc [] = acc"
| "decimal acc (c # cs) = decimal (10 * acc + digit_value digit_chars c) cs"

definition parseInt :: "string \<Rightarrow> int option" where
  "parseInt s =
     (let t = dropWhile is_space s;
          negative = (case t of [] \<Rightarrow> False | c # r \<Rightarrow> c = CHR ''-'');
          unsigned = (case t of [] \<Rightarrow> [] | c # r \<Rightarrow> if c = CHR ''-'' \<or> c = CHR ''+'' then r else t);
          ds = takeWhile (\<lambda>c. c \<in> set digit_chars) unsigned
      in if ds = [] then None
         else Some (if negative then - int (decimal 0 ds) else int (decimal 0 ds)))"

text \<open>\<^verbatim>\<open>parseInt(s, 10) || d\<close>: NaN and 0 give the default.\<close>

definition parseInt_or :: "string \<Rightarrow> int \<Rightarrow> int" where
  "parseInt_or s d = (case parseInt s of None \<Rightarrow> d | Some n \<Rightarrow> if n = 0 then d else n)"

text \<open>
  The filter that the handler builds for the database. The database decides which
  documents match it (its regular expressions and its comparison of dates are not
  modelled), so the handler takes that decision, and the database's sort by
  \<^verbatim>\<open>updated_at\<close> and \<^verbatim>\<open>created_at\<close> descending, as parameters.
\<close>

record query_filter =
  url_regex :: "string option"
  severity_gte :: "int option"
  severity_lt :: "int option"
  created_gte :: "string option"
  created_lte :: "string option"

definition build_filter :: "query \<Rightarrow> query_filter" where
  "build_filter q =
     (let search1 = default_to [] (search q);
          severity1 = default_to [] (severity q);
          dateFrom1 = default_to [] (dateFrom q);
          dateTo1 = default_to [] (dateTo q)
      in \<lparr>url_regex = (if trim search1 \<noteq> [] then Some (trim search1) else None),
          severity_gte =
            (if severity1 = ''high'' then Some 7 else if severity1 = ''medium'' then Some 4 else None),
          severity_lt =
            (if severity1 = ''medium'' then Some 7 else if severity1 = ''low'' then Some 4 else None),
          created_gte = (if dateFrom1 \<noteq> [] then Some (dateFrom1 @ ''T00:00:00.000Z'') else None),
          created_lte = (if dateTo1 \<noteq> [] then Some (dateTo1 @ ''T23:59:59.999Z'') else None)\<rparr>)"

record pagination =
  currentPage :: int
  totalPages :: int
  totalItems :: nat
  itemsPerPage :: int
  hasNext :: bool
  hasPrev :: bool

record filters =
  filter_search :: string
  filter_severity :: string
  filter_dateFrom :: string
  filter_dateTo :: string

text \<open>
  The three answers with status 200: \<^verbatim>\<open>{ links: [], note }\<close> without a database,
  \<^verbatim>\<open>{ links }\<close>, and \<^verbatim>\<open>{ success, links, pagination, filters }\<close>.
\<close>

datatype links_response =
    NoDatabase
  | Legacy "document list"
  | Paginated "document list" pagination filters

definition is_legacy :: "links_response \<Rightarrow> bool" where
  "is_legacy r = (case r of Legacy data \<Rightarrow> True | _ \<Rightarrow> False)"

definition is_paginated :: "links_response \<Rightarrow> bool" where
  "is_paginated r = (case r of Paginated data p f \<Rightarrow> True | _ \<Rightarrow> False)"

definition links_of :: "links_response \<Rightarrow> document list" where
  "links_of r =
     (case r of NoDatabase \<Rightarrow> [] | Legacy data \<Rightarrow> data | Paginated data p f \<Rightarrow> data)"

text \<open>
  The handler of \<^verbatim>\<open>GET /api/links\<close>, for a database that answers; \<open>col\<close> is the
  collection.
\<close>

definition links_handler ::
  "(query_filter \<Rightarrow> document \<Rightarrow> bool) \<Rightarrow> (document list \<Rightarrow> document list)
     \<Rightarrow> env \<Rightarrow> query \<Rightarrow> document list \<Rightarrow> links_response" where
  "links_handler db_matches db_sort e q col =
     (if MONGODB_URI e = None \<or> MONGODB_URI e = Some [] then NoDatabase
      else
        let pageNum = max 1 (parseInt_or (default_to ''1'' (page q)) 1);
            limitNum = min 100 (max 1 (parseInt_or (default_to ''50'' (limit q)) 50));
            skip = (pageNum - 1) * limitNum;
            matching = filter (db_matches (build_filter q)) col;
            totalCount = length matching;
            totalPages = (int totalCount + limitNum - 1) div limitNum;
            isLegacyRequest =
              (\<not> supplied (page q) \<and> \<not> supplied (limit q) \<and> totalCount \<le> 500)
        in if isLegacyRequest then Legacy (take 500 (db_sort matching))
           else Paginated (take (nat limitNum) (drop (nat skip) (db_sort matching)))
                  \<lparr>currentPage = pageNum, totalPages = totalPages, totalItems = totalCount,
                   itemsPerPage = limitNum, hasNext = (pageNum < totalPages),
                   hasPrev = (pageNum > 1)\<rparr>
                  \<lparr>filter_search = trim (default_to [] (search q)),
                   filter_severity = default_to [] (severity q),
                   filter_dateFrom = default_to [] (dateFrom q),
                   filter_dateTo = default_to [] (dateTo q)\<rparr>)"


section \<open>The summary handler\<close>

text \<open>
  The \<^verbatim>\<open>$addToSet\<close> accumulator of the \<^verbatim>\<open>$group\<close> stage: the distinct values of a field
  over the collection; a document without the field adds nothing.
\<close>

definition group_addToSet :: "string \<Rightarrow> document list \<Rightarrow> jsval list" where
  "group_addToSet k col = array_from_set (filter (\<lambda>v. v \<noteq> Undefined) (map (\<lambda>d. field d k) col))"

text \<open>
  \<^verbatim>\<open>allBots.add(botId)\<close>. A JavaScript \<^verbatim>\<open>Set\<close> compares strings, numbers, booleans and
  null by value and objects by reference; the arrays and dates of a query result are
  objects of their own, so adding one always makes the set larger.
\<close>

fun is_primitive :: "jsval \<Rightarrow> bool" where
  "is_primitive (Arr vs) = False"
| "is_primitive (Date d) = False"
| "is_primitive (DateOf v) = False"
| "is_primitive v = True"

definition set_add :: "jsval \<Rightarrow> jsval list \<Rightarrow> jsval list" where
  "set_add v allBots = (if is_primitive v \<and> v \<in> set allBots then allBots else allBots @ [v])"

text \<open>\<^verbatim>\<open>ids.forEach(botId => { if (botId) allBots.add(botId); })\<close>.\<close>

fun add_bots :: "jsval list \<Rightarrow> jsval list \<Rightarrow> jsval list" where
  "add_bots [] allBots = allBots"
| "add_bots (botId # ids) allBots =
     add_bots ids (if truthy botId then set_add botId allBots else allBots)"

text \<open>
  \<^verbatim>\<open>stats.uniqueSeenByBots.forEach(botArray => { if (Array.isArray(botArray)) ... })\<close>.
\<close>

fun add_seen :: "jsval list \<Rightarrow> jsval list \<Rightarrow> jsval list" where
  "add_seen [] allBots = allBots"
| "add_seen (botArray # arrays) allBots =
     add_seen arrays (case botArray of Arr ids \<Rightarrow> add_bots ids allBots | _ \<Rightarrow> allBots)"

text \<open>
  The handler of \<^verbatim>\<open>GET /api/stats\<close>. Of the response, \<^verbatim>\<open>totalLinks\<close> and
  \<^verbatim>\<open>activeBots\<close> are modelled; \<^verbatim>\<open>avgSeverity\<close> (a floating-point mean) and
  \<^verbatim>\<open>todayLinks\<close> (a comparison of dates) are left out. An empty collection gives no
  group, and the handler answers with zeros.
\<close>

datatype stats_response =
    StatsError nat string
  | Stats (totalLinks: nat) (activeBots: nat)

definition stats_handler :: "env \<Rightarrow> string \<Rightarrow> document list \<Rightarrow> stats_response" where
  "stats_handler e verb col =
     (if verb \<noteq> ''GET'' then StatsError 405 ''Method not allowed''
      else if MONGODB_URI e = None \<or> MONGODB_URI e = Some [] then StatsError 500 ''Server error''
      else if col = [] then Stats 0 0
      else
        let uniqueBots = group_addToSet ''bot_id'' col;
            uniqueSeenByBots = group_addToSet ''seen_by_bots'' col;
            allBots = add_seen uniqueSeenByBots (add_bots uniqueBots [])
        in Stats (length col) (length allBots))"

text \<open>
  The identities of the data model: an identity is a non-empty string, or null, or
  absent; \<^verbatim>\<open>seen_by_bots\<close> is absent, null or an array of identities.
\<close>

definition is_identity :: "jsval \<Rightarrow> bool" where
  "is_identity v = (case v of Undefined \<Rightarrow> True | Null \<Rightarrow> True | Str s \<Rightarrow> s \<noteq> [] | _ \<Rightarrow> False)"

definition link_identities_ok :: "document \<Rightarrow> bool" where
  "link_identities_ok d =
     (is_identity (field d ''bot_id'')
      \<and> (case field d ''seen_by_bots'' of
            Undefined \<Rightarrow> True
          | Null \<Rightarrow> True
          | Arr ids \<Rightarrow> list_all is_identity ids
          | _ \<Rightarrow> False))"

text \<open>
  The identities that a collection names: every record's \<^verbatim>\<open>bot_id\<close> and every element of
  every record's \<^verbatim>\<open>seen_by_bots\<close>, those that are null or absent left out.
\<close>

definition names_of :: "jsval list \<Rightarrow> string list" where
  "names_of vs = concat (map (\<lambda>v. case v of Str b \<Rightarrow> [b] | _ \<Rightarrow> []) vs)"

definition doc_bots :: "document \<Rightarrow> string list" where
  "doc_bots d =
     names_of [field d ''bot_id'']
       @ (case field d ''seen_by_bots'' of Arr ids \<Rightarrow> names_of ids | _ \<Rightarrow> [])"

definition named_bots :: "document list \<Rightarrow> string set" where
  "named_bots col = set (concat (map doc_bots col))"

text \<open>An element of \<^verbatim>\<open>uniqueSeenByBots\<close> that, when an array, holds identities only.\<close>

definition identity_array :: "jsval \<Rightarrow> bool" where
  "identity_array a = (case a of Arr ids \<Rightarrow> list_all is_identity ids | _ \<Rightarrow> True)"


section \<open>Inputs of the scenarios\<close>

text \<open>
  A deployment with a database and two allow-listed tokens, a server that has handled
  nothing yet, and a well-formed submission of a tweet text under a token.
\<close>

definition deployment :: env where
  "deployment = \<lparr>MONGODB_URI = Some ''mongodb://db.test/'', VALID_TOKENS = Some ''alice.k1,bob.k2''\<rparr>"

definition new_server :: server where
  "new_server = \<lparr>rateLimitMap = Map.empty, client = False, links = [], indexes = []\<rparr>"

definition submission :: "string \<Rightarrow> document \<Rightarrow> request" where
  "submission token b =
     \<lparr>req_method = ''POST'', authorization = Some (''Bearer '' @ token), ip = None, body = Some b\<rparr>"

definition tweet :: "string \<Rightarrow> document" where
  "tweet text = [(''tweet_text'', Str text), (''tweet_id'', Str ''1'')]"

text \<open>A record that the collection already holds for a URL, written when \<open>alice\<close> found it.\<close>

definition alice_record :: document where
  "alice_record =
     [(''url'', Str ''http://x.test/a''),
      (''created_at'', Date 100),
      (''first_seen_bot'', Str ''alice''),
      (''tweet_id'', Str ''1''),
      (''tweet_text'', Str ''old http://x.test/a''),
      (''bot_id'', Str ''alice''),
      (''updated_at'', Date 100),
      (''seen_by_bots'', Arr [Str ''alice''])]"

text \<open>
  The record of a URL that identity \<open>A\<close> created and identity \<open>B\<close> later submitted
  again.
\<close>

definition resubmitted_record :: document where
  "resubmitted_record =
     [(''url'', Str ''http://x.test/a''),
      (''created_at'', Date 100),
      (''first_seen_bot'', Str ''A''),
      (''bot_id'', Str ''B''),
      (''updated_at'', Date 200),
      (''seen_by_bots'', Arr [Str ''A'', Str ''B''])]"

text \<open>A read request without parameters, and a database that matches every document and keeps their order.\<close>

definition no_parameters :: query where
  "no_parameters =
     \<lparr>page = None, limit = None, search = None, severity = None, dateFrom = None, dateTo = None\<rparr>"

definition match_every :: "query_filter \<Rightarrow> document \<Rightarrow> bool" where
  "match_every f d = True"


section \<open>Properties of the admission limiter\<close>

lemma checkRateLimit_eq:
  "checkRateLimit botId q w now m =
     (if q \<le> length (filter (\<lambda>t. now - w < t) (case m botId of None \<Rightarrow> [] | Some r \<Rightarrow> r))
      then (False, if m botId = None then m(botId \<mapsto> []) else m)
      else (True, m(botId \<mapsto>
              filter (\<lambda>t. now - w < t) (case m botId of None \<Rightarrow> [] | Some r \<Rightarrow> r) @ [now])))"
  by (auto simp: checkRateLimit_def Let_def split: option.splits)

lemma admissions_within_window:
  "m botId = Some xs \<Longrightarrow> length xs + length ts \<le> q \<Longrightarrow>
   (\<And>a b. a \<in> set (xs @ ts) \<Longrightarrow> b \<in> set (xs @ ts) \<Longrightarrow> a - b < w) \<Longrightarrow>
   admissions botId q w ts m = (replicate (length ts) True, m(botId \<mapsto> xs @ ts))"
proof (induction ts arbitrary: m xs)
  case Nil
  then show ?case by (simp add: map_upd_triv)
next
  case (Cons t ts)
  have "\<forall>x\<in>set xs. t - w < x"
  proof
    fix x assume "x \<in> set xs"
    then have "t - x < w" using Cons.prems(3) [of t x] by simp
    then show "t - w < x" by simp
  qed
  then have keep: "filter (\<lambda>x. t - w < x) xs = xs" by simp
  have len: "\<not> q \<le> length xs" using Cons.prems(2) by simp
  have step: "checkRateLimit botId q w t m = (True, m(botId \<mapsto> xs @ [t]))"
    using Cons.prems(1) keep len by (simp add: checkRateLimit_eq)
  have rest: "admissions botId q w ts (m(botId \<mapsto> xs @ [t]))
      = (replicate (length ts) True, (m(botId \<mapsto> xs @ [t]))(botId \<mapsto> (xs @ [t]) @ ts))"
  proof (rule Cons.IH [where xs = "xs @ [t]"])
    show "(m(botId \<mapsto> xs @ [t])) botId = Some (xs @ [t])" by simp
    show "length (xs @ [t]) + length ts \<le> q" using Cons.prems(2) by simp
    fix a b assume "a \<in> set ((xs @ [t]) @ ts)" "b \<in> set ((xs @ [t]) @ ts)"
    then show "a - b < w" using Cons.prems(3) [of a b] by auto
  qed
  from rest have rest': "admissions botId q w ts (m(botId \<mapsto> xs @ [t]))
      = (replicate (length ts) True, m(botId \<mapsto> xs @ t # ts))" by simp
  have "admissions botId q w (t # ts) m
      = (replicate (length (t # ts)) True, m(botId \<mapsto> xs @ t # ts))"
    by (simp add: step rest')
  then show ?case by (simp add: fun_upd_def)
qed

text \<open>
  Claim C4, as the specification words it, fails on the boundary: a timestamp that is
  exactly one window old is not older than \<open>now - window\<close>, yet the code discards it.
  With a hundred stored admissions at time 0 and a call at time 3600000 the code admits
  the request, where the rule as worded still counts a hundred and denies.
\<close>

theorem checkRateLimit_boundary_counterexample:
  "fst (checkRateLimit ''bot'' 100 3600000 3600000 [''bot'' \<mapsto> replicate 100 0]) = True
   \<and> fst (admit_spec 100 3600000 3600000 (replicate 100 0)) = False"
  by (simp add: checkRateLimit_eq admit_spec_def)

lemma admissions_window_scenario:
  assumes "m botId = None \<or> m botId = Some []"
    and "length ts = q" and "0 < q"
    and "\<forall>a\<in>set ts. \<forall>b\<in>set ts. a - b < w"
    and "\<forall>a\<in>set ts. t - a < w"
    and "\<forall>a\<in>set ts. a + w \<le> t'"
  shows "admissions botId q w ts m = (replicate q True, m(botId \<mapsto> ts))
       \<and> checkRateLimit botId q w t (m(botId \<mapsto> ts)) = (False, m(botId \<mapsto> ts))
       \<and> checkRateLimit botId q w t' (m(botId \<mapsto> ts)) = (True, m(botId \<mapsto> [t']))"
proof -
  have run: "admissions botId q w ts m = (replicate q True, m(botId \<mapsto> ts))"
  proof (cases "m botId")
    case None
    from assms(2,3) obtain u us where ts: "ts = u # us" by (cases ts) auto
    have first: "checkRateLimit botId q w u m = (True, m(botId \<mapsto> [] @ [u]))"
      using None assms(3) by (simp add: checkRateLimit_eq)
    have "admissions botId q w us (m(botId \<mapsto> [u]))
        = (replicate (length us) True, (m(botId \<mapsto> [u]))(botId \<mapsto> [u] @ us))"
    proof (rule admissions_within_window [where xs = "[u]"])
      show "(m(botId \<mapsto> [u])) botId = Some [u]" by simp
      show "length [u] + length us \<le> q" using assms(2) ts by simp
      fix a b assume "a \<in> set ([u] @ us)" "b \<in> set ([u] @ us)"
      then show "a - b < w" using assms(4) ts by auto
    qed
    then show ?thesis using first ts assms(2) by auto
  next
    case (Some r)
    then have r: "m botId = Some []" using assms(1) by simp
    have "admissions botId q w ts m = (replicate (length ts) True, m(botId \<mapsto> [] @ ts))"
    proof (rule admissions_within_window [where xs = "[]"])
      show "m botId = Some []" by (rule r)
      show "length [] + length ts \<le> q" using assms(2) by simp
      fix a b assume "a \<in> set ([] @ ts)" "b \<in> set ([] @ ts)"
      then show "a - b < w" using assms(4) by auto
    qed
    then show ?thesis using assms(2) by simp
  qed
  have "\<forall>x\<in>set ts. t - w < x"
  proof
    fix x assume "x \<in> set ts"
    then have "t - x < w" using assms(5) by simp
    then show "t - w < x" by simp
  qed
  then have "filter (\<lambda>x. t - w < x) ts = ts" by simp
  then have deny: "checkRateLimit botId q w t (m(botId \<mapsto> ts)) = (False, m(botId \<mapsto> ts))"
    using assms(2) by (simp add: checkRateLimit_eq)
  have "\<forall>x\<in>set ts. \<not> t' - w < x"
  proof
    fix x assume "x \<in> set ts"
    then have "x + w \<le> t'" using assms(6) by simp
    then show "\<not> t' - w < x" by simp
  qed
  then have "filter (\<lambda>x. t' - w < x) ts = []" by simp
  then have again: "checkRateLimit botId q w t' (m(botId \<mapsto> ts)) = (True, m(botId \<mapsto> [t']))"
    using assms(3) by (simp add: checkRateLimit_eq)
  show ?thesis using run deny again by simp
qed

text \<open>
  Claim C4, amended. Every call, whatever the record holds, keeps the stored timestamps
  that are strictly newer than \<open>now - window\<close> (one that is exactly a window old is
  discarded as well); when at least \<open>quota\<close> of them remain it denies, records nothing
  and leaves the stored record as it was, otherwise it stores the kept timestamps
  followed by \<open>now\<close> and admits. Consequently, from an empty record, \<open>quota\<close> calls
  whose times lie pairwise less than a window apart are all admitted, one more call
  inside that window is denied and leaves the record as it was, and a call made once a
  full window has passed since every recorded time is admitted again.
\<close>

theorem checkRateLimit_sliding_window:
  "checkRateLimit botId q w now m =
     (if q \<le> length (filter (\<lambda>x. now - w < x) (case m botId of None \<Rightarrow> [] | Some r \<Rightarrow> r))
      then (False, if m botId = None then m(botId \<mapsto> []) else m)
      else (True, m(botId \<mapsto>
              filter (\<lambda>x. now - w < x) (case m botId of None \<Rightarrow> [] | Some r \<Rightarrow> r) @ [now])))
   \<and> ((m botId = None \<or> m botId = Some []) \<and> length ts = q \<and> 0 < q
        \<and> (\<forall>a\<in>set ts. \<forall>b\<in>set ts. a - b < w)
        \<and> (\<forall>a\<in>set ts. t - a < w)
        \<and> (\<forall>a\<in>set ts. a + w \<le> t')
      \<longrightarrow> admissions botId q w ts m = (replicate q True, m(botId \<mapsto> ts))
        \<and> checkRateLimit botId q w t (m(botId \<mapsto> ts)) = (False, m(botId \<mapsto> ts))
        \<and> checkRateLimit botId q w t' (m(botId \<mapsto> ts)) = (True, m(botId \<mapsto> [t'])))"
proof (rule conjI)
  show "checkRateLimit botId q w now m =
     (if q \<le> length (filter (\<lambda>x. now - w < x) (case m botId of None \<Rightarrow> [] | Some r \<Rightarrow> r))
      then (False, if m botId = None then m(botId \<mapsto> []) else m)
      else (True, m(botId \<mapsto>
              filter (\<lambda>x. now - w < x) (case m botId of None \<Rightarrow> [] | Some r \<Rightarrow> r) @ [now])))"
    by (rule checkRateLimit_eq)
next
  show "(m botId = None \<or> m botId = Some []) \<and> length ts = q \<and> 0 < q
        \<and> (\<forall>a\<in>set ts. \<forall>b\<in>set ts. a - b < w)
        \<and> (\<forall>a\<in>set ts. t - a < w)
        \<and> (\<forall>a\<in>set ts. a + w \<le> t')
      \<longrightarrow> admissions botId q w ts m = (replicate q True, m(botId \<mapsto> ts))
        \<and> checkRateLimit botId q w t (m(botId \<mapsto> ts)) = (False, m(botId \<mapsto> ts))
        \<and> checkRateLimit botId q w t' (m(botId \<mapsto> ts)) = (True, m(botId \<mapsto> [t']))"
  proof
    assume h: "(m botId = None \<or> m botId = Some []) \<and> length ts = q \<and> 0 < q
        \<and> (\<forall>a\<in>set ts. \<forall>b\<in>set ts. a - b < w)
        \<and> (\<forall>a\<in>set ts. t - a < w)
        \<and> (\<forall>a\<in>set ts. a + w \<le> t')"
    show "admissions botId q w ts m = (replicate q True, m(botId \<mapsto> ts))
        \<and> checkRateLimit botId q w t (m(botId \<mapsto> ts)) = (False, m(botId \<mapsto> ts))
        \<and> checkRateLimit botId q w t' (m(botId \<mapsto> ts)) = (True, m(botId \<mapsto> [t']))"
      by (rule admissions_window_scenario) (use h in blast)+
  qed
qed

theorem checkRateLimit_sliding_window_witness:
  "checkRateLimit ''bot'' 2 10 11 [''bot'' \<mapsto> [0, 9]] = (True, [''bot'' \<mapsto> [9, 11]])
   \<and> checkRateLimit ''bot'' 1 10 11 [''bot'' \<mapsto> [0, 9]] = (False, [''bot'' \<mapsto> [0, 9]])
   \<and> admissions ''bot'' 100 3600000 (map int [1..<101]) Map.empty
     = (replicate 100 True, [''bot'' \<mapsto> map int [1..<101]])
   \<and> checkRateLimit ''bot'' 100 3600000 3599999 [''bot'' \<mapsto> map int [1..<101]]
     = (False, [''bot'' \<mapsto> map int [1..<101]])
   \<and> checkRateLimit ''bot'' 100 3600000 3600100 [''bot'' \<mapsto> map int [1..<101]]
     = (True, [''bot'' \<mapsto> [3600100]])"
proof -
  have h: "((Map.empty :: rate_limit_map) ''bot'' = None
        \<or> (Map.empty :: rate_limit_map) ''bot'' = Some [])
      \<and> length (map int [1..<101]) = 100 \<and> 0 < (100::nat)
      \<and> (\<forall>a\<in>set (map int [1..<101]). \<forall>b\<in>set (map int [1..<101]). a - b < 3600000)
      \<and> (\<forall>a\<in>set (map int [1..<101]). 3599999 - a < 3600000)
      \<and> (\<forall>a\<in>set (map int [1..<101]). a + 3600000 \<le> 3600100)"
    by auto
  from checkRateLimit_sliding_window
    [where m = "[''bot'' \<mapsto> [0, 9]]" and botId = "''bot''" and q = 2 and w = 10 and now = 11]
  have mixed: "checkRateLimit ''bot'' 2 10 11 [''bot'' \<mapsto> [0, 9]]
      = (True, [''bot'' \<mapsto> [9, 11]])"
    by simp
  from checkRateLimit_sliding_window
    [where m = "[''bot'' \<mapsto> [0, 9]]" and botId = "''bot''" and q = 1 and w = 10 and now = 11]
  have full: "checkRateLimit ''bot'' 1 10 11 [''bot'' \<mapsto> [0, 9]]
      = (False, [''bot'' \<mapsto> [0, 9]])"
    by simp
  from checkRateLimit_sliding_window
    [where m = Map.empty and botId = "''bot''" and q = 100 and w = 3600000
       and ts = "map int [1..<101]" and t = 3599999 and t' = 3600100 and now = 0] h
  have run: "admissions ''bot'' 100 3600000 (map int [1..<101]) Map.empty
     = (replicate 100 True, [''bot'' \<mapsto> map int [1..<101]])
   \<and> checkRateLimit ''bot'' 100 3600000 3599999 [''bot'' \<mapsto> map int [1..<101]]
     = (False, [''bot'' \<mapsto> map int [1..<101]])
   \<and> checkRateLimit ''bot'' 100 3600000 3600100 [''bot'' \<mapsto> map int [1..<101]]
     = (True, [''bot'' \<mapsto> [3600100]])"
    by blast
  from mixed full run show ?thesis by blast
qed

section \<open>Properties of the URL extractor\<close>

lemma set_set_add_all: "set (set_add_all seen xs) = set seen \<union> set xs"
  by (induction xs arbitrary: seen) auto

lemma distinct_set_add_all: "distinct seen \<Longrightarrow> distinct (set_add_all seen xs)"
  by (induction xs arbitrary: seen) auto

lemma array_from_set_Nil: "array_from_set xs = [] \<longleftrightarrow> xs = []"
proof -
  have "set (array_from_set xs) = set xs"
    by (simp add: array_from_set_def set_set_add_all)
  then show ?thesis by (metis set_empty)
qed

section \<open>Properties of the submit handler\<close>

text \<open>
  The store on an update whose operators name distinct paths: the first call inserts
  the record, an identical second call changes nothing and reports no modification,
  and a call from another bot modifies the record and leaves \<^verbatim>\<open>first_seen_bot\<close> alone.
\<close>

lemma updateOne_distinct_paths:
  "updateOne ''u''
     \<lparr>op_setOnInsert = [(''url'', Str ''u''), (''first_seen_bot'', Str ''a'')],
      op_set = [(''bot_id'', Str ''a'')],
      op_addToSet = [(''seen_by_bots'', Str ''a'')]\<rparr> []
     = Inr (\<lparr>upserted = True, modifiedCount = 0\<rparr>,
            [[(''url'', Str ''u''), (''first_seen_bot'', Str ''a''), (''bot_id'', Str ''a''),
              (''seen_by_bots'', Arr [Str ''a''])]])"
  "updateOne ''u''
     \<lparr>op_setOnInsert = [(''url'', Str ''u''), (''first_seen_bot'', Str ''a'')],
      op_set = [(''bot_id'', Str ''a'')],
      op_addToSet = [(''seen_by_bots'', Str ''a'')]\<rparr>
     [[(''url'', Str ''u''), (''first_seen_bot'', Str ''a''), (''bot_id'', Str ''a''),
       (''seen_by_bots'', Arr [Str ''a''])]]
     = Inr (\<lparr>upserted = False, modifiedCount = 0\<rparr>,
            [[(''url'', Str ''u''), (''first_seen_bot'', Str ''a''), (''bot_id'', Str ''a''),
              (''seen_by_bots'', Arr [Str ''a''])]])"
  "updateOne ''u''
     \<lparr>op_setOnInsert = [(''url'', Str ''u''), (''first_seen_bot'', Str ''b'')],
      op_set = [(''bot_id'', Str ''b'')],
      op_addToSet = [(''seen_by_bots'', Str ''b'')]\<rparr>
     [[(''url'', Str ''u''), (''first_seen_bot'', Str ''a''), (''bot_id'', Str ''a''),
       (''seen_by_bots'', Arr [Str ''a''])]]
     = Inr (\<lparr>upserted = False, modifiedCount = 1\<rparr>,
            [[(''url'', Str ''u''), (''first_seen_bot'', Str ''a''), (''bot_id'', Str ''b''),
              (''seen_by_bots'', Arr [Str ''a'', Str ''b''])]])"
  by code_simp+

text \<open>
  The update the handler builds names \<^verbatim>\<open>created_at\<close> twice: once in \<^verbatim>\<open>$setOnInsert\<close>
  (the time of the insert) and once in \<^verbatim>\<open>$set\<close>, through \<^verbatim>\<open>metadata.created_at\<close> (the
  tweet's own date). The database refuses such an update, so every call of the loop
  fails, whatever the collection holds.
\<close>

lemma conflicting_path_merge_update:
  "conflicting_path (merge_update b tweetText botId now url) = Some ''created_at''"
  by (simp add: conflicting_path_def merge_update_def metadata_def)

lemma updateOne_merge_update:
  "updateOne url (merge_update b tweetText botId now url) docs
     = Inl (ConflictingUpdateOperators ''created_at'')"
  by (simp add: updateOne_def conflicting_path_merge_update)

lemma merge_loop_rejected:
  "urls \<noteq> [] \<Longrightarrow>
   merge_loop b tweetText botId now urls ins upd docs
     = Inl (ConflictingUpdateOperators ''created_at'', docs)"
  by (cases urls) (simp_all add: updateOne_merge_update)

lemma ingest_handler_links:
  "links (snd (ingest_handler e now_ms now_date req s)) = links s"
  by (simp add: ingest_handler_def Let_def merge_loop_rejected array_from_set_Nil
      split: prod.split jsval.split)

lemma ingest_handler_no_Success:
  "fst (ingest_handler e now_ms now_date req s) \<noteq> Success i u p b"
  by (simp add: ingest_handler_def Let_def merge_loop_rejected array_from_set_Nil
      split: prod.split jsval.split)

text \<open>
  The handler stage by stage, with the loop's outcome filled in: after the checks, a
  submission with URLs always ends in status 500.
\<close>

lemma ingest_handler_stages:
  "ingest_handler e t1 t2 req s =
     (let auth = (case authorization req of None \<Rightarrow> [] | Some a \<Rightarrow> a);
          lim = checkRateLimit (request_botId req) maxRequests_default windowMs_default t1
                  (rateLimitMap s);
          s1 = s\<lparr>rateLimitMap := snd lim\<rparr>;
          b = (case body req of None \<Rightarrow> [] | Some d \<Rightarrow> d)
      in if req_method req \<noteq> ''POST'' then (Error 405 ''Method not allowed'', s)
         else if \<not> startsWith auth ''Bearer '' then (Error 401 ''Bearer token required'', s)
         else if \<not> fst lim then (Error 429 ''Rate limit exceeded'', s1)
         else if drop 7 auth \<notin> set (validTokens e) then (Error 401 ''Invalid token'', s1)
         else if \<not> truthy (field b ''tweet_text'') then
           (Error 400 ''Missing required fields: tweet_text, tweet_id'', s1)
         else if \<not> truthy (field b ''tweet_id'') then
           (Error 400 ''Missing required fields: tweet_text, tweet_id'', s1)
         else (case field b ''tweet_text'' of
                 Str tweetText \<Rightarrow>
                   if extract_urls tweetText = [] then (NoUrls, s1)
                   else if MONGODB_URI e = None \<or> MONGODB_URI e = Some [] then
                     (Error 500 ''Server error'', s1)
                   else (Error 500 ''Server error'',
                         s1\<lparr>client := True, indexes := ensure_indexes (links s) (indexes s)\<rparr>)
               | _ \<Rightarrow> (Error 500 ''Server error'', s1)))"
  by (simp add: ingest_handler_def request_botId_def Let_def merge_loop_rejected
      array_from_set_Nil split: prod.split jsval.split)


text \<open>
  Claim C1 (write-once \<^verbatim>\<open>created_at\<close> and \<^verbatim>\<open>first_seen_bot\<close>, the other fields taken
  from the latest submission), evaluated where the collection already holds a record
  for the URL and \<open>bob\<close> submits it again with a valid token. The update is refused
  for naming \<^verbatim>\<open>created_at\<close> in two operators, the handler answers 500, and the record
  keeps every field as it was: none takes the value of the submission.
\<close>

theorem ingest_existing_url_rejected:
  "fst (ingest_handler deployment 5000 5001
          (submission ''bob.k2'' (tweet ''new http://x.test/a''))
          (new_server\<lparr>links := [alice_record]\<rparr>))
     = Error 500 ''Server error''
   \<and> links (snd (ingest_handler deployment 5000 5001
          (submission ''bob.k2'' (tweet ''new http://x.test/a''))
          (new_server\<lparr>links := [alice_record]\<rparr>)))
     = [alice_record]
   \<and> updateOne ''http://x.test/a''
         (merge_update (tweet ''new http://x.test/a'') ''new http://x.test/a'' ''bob'' 5001
            ''http://x.test/a'')
         [alice_record]
     = Inl (ConflictingUpdateOperators ''created_at'')"
  by code_simp

text \<open>
  Claim C2 (an identical payload twice: inserted=1, updated=0, then inserted=0,
  updated=0), evaluated for a fresh URL submitted twice by \<open>alice\<close>. Both calls are
  answered with status 500 and the collection stays empty.
\<close>

theorem ingest_repeat_rejected:
  "fst (ingest_handler deployment 1000 1001
          (submission ''alice.k1'' (tweet ''http://x.test/a'')) new_server)
     = Error 500 ''Server error''
   \<and> fst (ingest_handler deployment 2000 2001
          (submission ''alice.k1'' (tweet ''http://x.test/a''))
          (snd (ingest_handler deployment 1000 1001
                  (submission ''alice.k1'' (tweet ''http://x.test/a'')) new_server)))
     = Error 500 ''Server error''
   \<and> links (snd (ingest_handler deployment 2000 2001
          (submission ''alice.k1'' (tweet ''http://x.test/a''))
          (snd (ingest_handler deployment 1000 1001
                  (submission ''alice.k1'' (tweet ''http://x.test/a'')) new_server))))
     = []"
  by code_simp

text \<open>
  Claim C6 (the extraction scenario), evaluated. The text yields two matches, trimmed
  to the same URL, the set keeps one of them, so the loop makes one call of
  \<^verbatim>\<open>updateOne\<close>; that call is refused and the response is status 500, not inserted=1.
\<close>

theorem ingest_extraction_scenario:
  "match_all ''see http://x.test/a. and http://x.test/a,''
     = [''http://x.test/a.'', ''http://x.test/a,'']
   \<and> extract_urls ''see http://x.test/a. and http://x.test/a,''
     = [''http://x.test/a'', ''http://x.test/a'']
   \<and> array_from_set (extract_urls ''see http://x.test/a. and http://x.test/a,'')
     = [''http://x.test/a'']
   \<and> fst (ingest_handler deployment 1000 1001
          (submission ''alice.k1'' (tweet ''see http://x.test/a. and http://x.test/a,''))
          new_server)
     = Error 500 ''Server error''
   \<and> links (snd (ingest_handler deployment 1000 1001
          (submission ''alice.k1'' (tweet ''see http://x.test/a. and http://x.test/a,''))
          new_server))
     = []"
  by code_simp

text \<open>
  Claim C9 (\<^verbatim>\<open>processed_urls\<close> counts the matches before they are deduplicated),
  evaluated for a text with the same URL twice. The handler computes two matches and
  one distinct URL, but the success response that would report them is never built:
  the answer is status 500.
\<close>

theorem ingest_processed_urls_unreported:
  "length (extract_urls ''http://x.test/a http://x.test/a'') = 2
   \<and> array_from_set (extract_urls ''http://x.test/a http://x.test/a'') = [''http://x.test/a'']
   \<and> fst (ingest_handler deployment 1000 1001
          (submission ''alice.k1'' (tweet ''http://x.test/a http://x.test/a'')) new_server)
     = Error 500 ''Server error''"
  by code_simp

text \<open>
  Claim C5, as stated, fails: a request with a token that is not allow-listed, and a
  request that lacks \<^verbatim>\<open>tweet_id\<close>, are rejected after \<^verbatim>\<open>checkRateLimit\<close> has recorded
  them, so the rate-limit record of the derived bot id has changed.
\<close>

theorem ingest_rejection_counterexample:
  "fst (ingest_handler deployment 1000 1001 (submission ''mallory.zz'' (tweet ''x'')) new_server)
     = Error 401 ''Invalid token''
   \<and> rateLimitMap new_server ''mallory'' = None
   \<and> rateLimitMap
         (snd (ingest_handler deployment 1000 1001 (submission ''mallory.zz'' (tweet ''x''))
                 new_server)) ''mallory''
     = Some [1000]
   \<and> fst (ingest_handler deployment 1000 1001
            (submission ''alice.k1'' [(''tweet_text'', Str ''x'')]) new_server)
     = Error 400 ''Missing required fields: tweet_text, tweet_id''
   \<and> rateLimitMap
         (snd (ingest_handler deployment 1000 1001
                 (submission ''alice.k1'' [(''tweet_text'', Str ''x'')]) new_server)) ''alice''
     = Some [1000]"
  by code_simp

text \<open>
  Claim C5, amended. A request rejected for a missing Bearer credential changes no
  state at all. A request rejected for a token that is not allow-listed, or for a
  missing \<^verbatim>\<open>tweet_text\<close> or \<^verbatim>\<open>tweet_id\<close>, is returned before any access to the database
  (the documents, the indexes and the client are as before), but after admission
  control: the only change is that the attempt has been recorded in the rate-limit
  record of the bot id derived from the credential.
\<close>

theorem ingest_rejection_effects:
  "(fst (ingest_handler e t1 t2 req s) = Error 401 ''Bearer token required''
      \<longrightarrow> snd (ingest_handler e t1 t2 req s) = s)
   \<and> (fst (ingest_handler e t1 t2 req s) = Error 401 ''Invalid token''
        \<or> fst (ingest_handler e t1 t2 req s)
            = Error 400 ''Missing required fields: tweet_text, tweet_id''
      \<longrightarrow> snd (ingest_handler e t1 t2 req s)
            = s\<lparr>rateLimitMap := (rateLimitMap s)
                  (request_botId req \<mapsto>
                     filter (\<lambda>t. t1 - windowMs_default < t)
                       (case rateLimitMap s (request_botId req) of None \<Rightarrow> [] | Some ts \<Rightarrow> ts)
                     @ [t1])\<rparr>)"
proof -
  let ?lim = "checkRateLimit (request_botId req) maxRequests_default windowMs_default t1
                (rateLimitMap s)"
  have admitted: "fst ?lim \<Longrightarrow> snd ?lim = (rateLimitMap s)
                  (request_botId req \<mapsto>
                     filter (\<lambda>t. t1 - windowMs_default < t)
                       (case rateLimitMap s (request_botId req) of None \<Rightarrow> [] | Some ts \<Rightarrow> ts)
                     @ [t1])"
    by (simp add: checkRateLimit_eq split: if_splits)
  have bearer: "fst (ingest_handler e t1 t2 req s) = Error 401 ''Bearer token required''
      \<longrightarrow> snd (ingest_handler e t1 t2 req s) = s"
    by (simp add: ingest_handler_stages Let_def split: jsval.split)
  have later: "fst (ingest_handler e t1 t2 req s) = Error 401 ''Invalid token''
        \<or> fst (ingest_handler e t1 t2 req s)
            = Error 400 ''Missing required fields: tweet_text, tweet_id''
      \<longrightarrow> fst ?lim \<and> snd (ingest_handler e t1 t2 req s) = s\<lparr>rateLimitMap := snd ?lim\<rparr>"
    by (simp add: ingest_handler_stages Let_def split: jsval.split)
  from bearer later admitted show ?thesis by auto
qed

theorem ingest_rejection_effects_witness:
  "fst (ingest_handler deployment 1000 1001
          ((submission ''mallory.zz'' (tweet ''x''))\<lparr>authorization := None\<rparr>) new_server)
     = Error 401 ''Bearer token required''
   \<and> snd (ingest_handler deployment 1000 1001
          ((submission ''mallory.zz'' (tweet ''x''))\<lparr>authorization := None\<rparr>) new_server)
     = new_server
   \<and> fst (ingest_handler deployment 1000 1001 (submission ''mallory.zz'' (tweet ''x'')) new_server)
     = Error 401 ''Invalid token''
   \<and> snd (ingest_handler deployment 1000 1001 (submission ''mallory.zz'' (tweet ''x'')) new_server)
     = new_server\<lparr>rateLimitMap := [''mallory'' \<mapsto> [1000]]\<rparr>"
proof -
  have a: "fst (ingest_handler deployment 1000 1001
          ((submission ''mallory.zz'' (tweet ''x''))\<lparr>authorization := None\<rparr>) new_server)
     = Error 401 ''Bearer token required''"
    by code_simp
  have b: "fst (ingest_handler deployment 1000 1001
          (submission ''mallory.zz'' (tweet ''x'')) new_server)
     = Error 401 ''Invalid token''"
    by code_simp
  have c: "request_botId (submission ''mallory.zz'' (tweet ''x'')) = ''mallory''"
    by code_simp
  have d: "rateLimitMap new_server = Map.empty"
    by (simp add: new_server_def)
  from a ingest_rejection_effects
    [of deployment 1000 1001 "(submission ''mallory.zz'' (tweet ''x''))\<lparr>authorization := None\<rparr>"
      new_server]
  have a': "snd (ingest_handler deployment 1000 1001
          ((submission ''mallory.zz'' (tweet ''x''))\<lparr>authorization := None\<rparr>) new_server)
     = new_server"
    by blast
  from b ingest_rejection_effects
    [of deployment 1000 1001 "submission ''mallory.zz'' (tweet ''x'')" new_server]
  have "snd (ingest_handler deployment 1000 1001
          (submission ''mallory.zz'' (tweet ''x'')) new_server)
     = new_server\<lparr>rateLimitMap := (rateLimitMap new_server)
          (request_botId (submission ''mallory.zz'' (tweet ''x'')) \<mapsto>
             filter (\<lambda>t. 1000 - windowMs_default < t)
               (case rateLimitMap new_server (request_botId (submission ''mallory.zz'' (tweet ''x'')))
                  of None \<Rightarrow> [] | Some ts \<Rightarrow> ts)
             @ [1000])\<rparr>"
    by blast
  then have b': "snd (ingest_handler deployment 1000 1001
          (submission ''mallory.zz'' (tweet ''x'')) new_server)
     = new_server\<lparr>rateLimitMap := [''mallory'' \<mapsto> [1000]]\<rparr>"
    by (simp add: c d)
  from a a' b b' show ?thesis by blast
qed

lemma first_part_separator: "startsWith token ''.'' \<Longrightarrow> first_part CHR ''.'' token = []"
  by (cases token) (auto simp: startsWith_def first_part_def split: list.splits)

text \<open>
  For a Bearer credential that begins with the separator, the part before the first
  separator is empty and the bot id is never empty: it is the request's IP address when
  there is one, and \<open>anonymous\<close> otherwise; the handler's limiter state after the
  request is the result of \<^verbatim>\<open>checkRateLimit\<close> for that key, and it answers 429 exactly
  when that call denies.
\<close>

lemma request_botId_separator:
  assumes "startsWith token ''.''"
    and "req_method req = ''POST''"
    and "authorization req = Some (''Bearer '' @ token)"
  shows "request_botId req \<noteq> []
    \<and> request_botId req
        = (case ip req of None \<Rightarrow> ''anonymous'' | Some a \<Rightarrow> if a = [] then ''anonymous'' else a)
    \<and> rateLimitMap (snd (ingest_handler e t1 t2 req s))
        = snd (checkRateLimit
                 (case ip req of None \<Rightarrow> ''anonymous'' | Some a \<Rightarrow> if a = [] then ''anonymous'' else a)
                 maxRequests_default windowMs_default t1 (rateLimitMap s))
    \<and> (fst (ingest_handler e t1 t2 req s) = Error 429 ''Rate limit exceeded''
        \<longleftrightarrow> \<not> fst (checkRateLimit
                 (case ip req of None \<Rightarrow> ''anonymous'' | Some a \<Rightarrow> if a = [] then ''anonymous'' else a)
                 maxRequests_default windowMs_default t1 (rateLimitMap s)))"
proof -
  let ?fallback =
    "case ip req of None \<Rightarrow> ''anonymous'' | Some a \<Rightarrow> if a = [] then ''anonymous'' else a"
  have id: "request_botId req = ?fallback"
    using assms(1,3)
    by (simp add: request_botId_def botId_of_def first_part_separator split: option.split)
  have ne: "?fallback \<noteq> []"
    by (simp split: option.split)
  have bearer: "startsWith (''Bearer '' @ token) ''Bearer ''"
    by (simp add: startsWith_def)
  have lim: "rateLimitMap (snd (ingest_handler e t1 t2 req s))
      = snd (checkRateLimit ?fallback maxRequests_default windowMs_default t1 (rateLimitMap s))"
    using assms(2,3) bearer
    by (simp add: ingest_handler_stages Let_def id split: jsval.split)
  have deny: "fst (ingest_handler e t1 t2 req s) = Error 429 ''Rate limit exceeded''
      \<longleftrightarrow> \<not> fst (checkRateLimit ?fallback maxRequests_default windowMs_default t1 (rateLimitMap s))"
    using assms(2,3) bearer
    by (simp add: ingest_handler_stages Let_def id split: jsval.split)
  show ?thesis
    using ne lim deny by (simp only: id) blast
qed

text \<open>
  Claim C10 (a credential that begins with the separator: the identity falls back to the
  IP address or to \<open>anonymous\<close>, and rate limiting and attribution pool such callers
  under it), evaluated for the allow-listed token \<open>.k9\<close> and a tweet with a URL. The
  derived bot id is \<open>anonymous\<close> (the IP address when the request has one) and the
  limiter records the request under it; but no record is attributed to it: the update
  that carries it is refused, the answer is status 500 and the collection stays empty.
\<close>

theorem ingest_separator_token_unattributed:
  "request_botId (submission ''.k9'' (tweet ''http://x.test/a'')) = ''anonymous''
   \<and> request_botId ((submission ''.k9'' (tweet ''http://x.test/a''))\<lparr>ip := Some ''10.0.0.7''\<rparr>)
     = ''10.0.0.7''
   \<and> fst (ingest_handler (deployment\<lparr>VALID_TOKENS := Some ''.k9''\<rparr>) 1000 1001
          (submission ''.k9'' (tweet ''http://x.test/a'')) new_server)
     = Error 500 ''Server error''
   \<and> rateLimitMap
         (snd (ingest_handler (deployment\<lparr>VALID_TOKENS := Some ''.k9''\<rparr>) 1000 1001
                 (submission ''.k9'' (tweet ''http://x.test/a'')) new_server)) ''anonymous''
     = Some [1000]
   \<and> links
         (snd (ingest_handler (deployment\<lparr>VALID_TOKENS := Some ''.k9''\<rparr>) 1000 1001
                 (submission ''.k9'' (tweet ''http://x.test/a'')) new_server))
     = []"
  by code_simp


section \<open>Properties of the read handler\<close>

text \<open>
  Claim C7. With a database configured, the handler answers in the flat legacy shape
  (the list of records alone, without pagination metadata) exactly when the request
  supplies neither \<^verbatim>\<open>page\<close> nor \<^verbatim>\<open>limit\<close> and at most 500 records match the filter;
  in every other case it answers in the paginated shape. A parameter counts as supplied
  as the handler tests it, \<^verbatim>\<open>!req.query.page\<close>: present and not the empty string. The
  legacy answer is the first 500 of the sorted matching records, so it never holds more
  than 500. In particular, without parameters 500 matching records give the legacy
  shape and 501 give the paginated one.
\<close>

theorem links_handler_legacy_mode:
  assumes "MONGODB_URI e = Some uri" and "uri \<noteq> []"
  shows "(is_legacy (links_handler db_matches db_sort e q col)
            \<longleftrightarrow> \<not> supplied (page q) \<and> \<not> supplied (limit q)
                \<and> length (filter (db_matches (build_filter q)) col) \<le> 500)
       \<and> (is_paginated (links_handler db_matches db_sort e q col)
            \<longleftrightarrow> \<not> is_legacy (links_handler db_matches db_sort e q col))
       \<and> (is_legacy (links_handler db_matches db_sort e q col)
            \<longrightarrow> links_handler db_matches db_sort e q col
                  = Legacy (take 500 (db_sort (filter (db_matches (build_filter q)) col)))
                \<and> length (links_of (links_handler db_matches db_sort e q col)) \<le> 500)"
  using assms by (simp add: links_handler_def Let_def is_legacy_def is_paginated_def links_of_def)

theorem links_handler_legacy_mode_witness:
  "is_legacy (links_handler match_every id deployment no_parameters (replicate 500 alice_record))
   \<and> is_paginated (links_handler match_every id deployment no_parameters (replicate 501 alice_record))
   \<and> is_paginated
        (links_handler match_every id deployment (no_parameters\<lparr>limit := Some ''50''\<rparr>)
           (replicate 500 alice_record))"
proof -
  have uri: "MONGODB_URI deployment = Some ''mongodb://db.test/''" "''mongodb://db.test/'' \<noteq> []"
    by (simp_all add: deployment_def)
  have all: "\<And>q n. length (filter (match_every (build_filter q)) (replicate n alice_record)) = n"
    by (simp add: match_every_def)
  have none: "\<not> supplied (page no_parameters)" "\<not> supplied (limit no_parameters)"
    by (simp_all add: no_parameters_def supplied_def)
  from links_handler_legacy_mode [OF uri, of match_every id no_parameters "replicate 500 alice_record"]
  have a: "is_legacy (links_handler match_every id deployment no_parameters (replicate 500 alice_record))"
    by (simp add: all none)
  from links_handler_legacy_mode [OF uri, of match_every id no_parameters "replicate 501 alice_record"]
  have b: "is_paginated (links_handler match_every id deployment no_parameters (replicate 501 alice_record))"
    by (simp add: all none)
  from links_handler_legacy_mode
    [OF uri, of match_every id "no_parameters\<lparr>limit := Some ''50''\<rparr>" "replicate 500 alice_record"]
  have c: "is_paginated
        (links_handler match_every id deployment (no_parameters\<lparr>limit := Some ''50''\<rparr>)
           (replicate 500 alice_record))"
    by (simp add: all supplied_def)
  from a b c show ?thesis by simp
qed


section \<open>Properties of the summary handler\<close>

lemma set_names_of: "set (names_of vs) = {b. Str b \<in> set vs}"
  by (induction vs) (auto simp: names_of_def split: jsval.splits)

lemma set_doc_bots:
  "b \<in> set (doc_bots d) \<longleftrightarrow>
     field d ''bot_id'' = Str b
       \<or> (\<exists>ids. field d ''seen_by_bots'' = Arr ids \<and> Str b \<in> set ids)"
  by (cases "field d ''seen_by_bots''") (auto simp: doc_bots_def set_names_of)

lemma named_bots_iff:
  "b \<in> named_bots col \<longleftrightarrow>
     (\<exists>d \<in> set col. field d ''bot_id'' = Str b
        \<or> (\<exists>ids. field d ''seen_by_bots'' = Arr ids \<and> Str b \<in> set ids))"
  by (simp add: named_bots_def set_doc_bots)

lemma set_set_add: "set (set_add v acc) = insert v (set acc)"
  by (auto simp: set_add_def)

lemma set_add_bots: "set (add_bots ids acc) = set acc \<union> {v \<in> set ids. truthy v}"
  by (induction ids arbitrary: acc) (auto simp: set_set_add)

lemma distinct_add_bots:
  "list_all is_identity ids \<Longrightarrow> distinct acc \<Longrightarrow> distinct (add_bots ids acc)"
proof (induction ids arbitrary: acc)
  case Nil
  then show ?case by simp
next
  case (Cons v ids)
  have "distinct (if truthy v then set_add v acc else acc)"
    using Cons.prems by (auto simp: set_add_def is_identity_def split: jsval.splits)
  with Cons show ?case by simp
qed

lemma set_add_seen:
  "set (add_seen arrays acc)
     = set acc \<union> {v. truthy v \<and> (\<exists>ids. Arr ids \<in> set arrays \<and> v \<in> set ids)}"
  by (induction arrays arbitrary: acc) (auto simp: set_add_bots split: jsval.splits)


lemma distinct_add_seen:
  "list_all identity_array arrays \<Longrightarrow> distinct acc \<Longrightarrow> distinct (add_seen arrays acc)"
proof (induction arrays arbitrary: acc)
  case Nil
  then show ?case by simp
next
  case (Cons a arrays)
  have "distinct (case a of Arr ids \<Rightarrow> add_bots ids acc | _ \<Rightarrow> acc)"
    using Cons.prems by (auto simp: identity_array_def distinct_add_bots split: jsval.splits)
  with Cons show ?case by simp
qed

lemma set_group_addToSet:
  "set (group_addToSet k col) = {v. v \<noteq> Undefined \<and> (\<exists>d \<in> set col. field d k = v)}"
  by (auto simp: group_addToSet_def array_from_set_def set_set_add_all)

lemma truthy_identity: "is_identity v \<Longrightarrow> truthy v \<longleftrightarrow> (\<exists>b. v = Str b)"
  by (cases v) (auto simp: is_identity_def)

text \<open>
  Claim C8. For a collection whose identities are as the data model has them (a
  \<^verbatim>\<open>bot_id\<close> that is a non-empty string, null or absent; a \<^verbatim>\<open>seen_by_bots\<close> that is an
  array of such values, null or absent), \<^verbatim>\<open>activeBots\<close> is the number of distinct
  identities in the union of every record's \<^verbatim>\<open>bot_id\<close> and every element of every
  record's \<^verbatim>\<open>seen_by_bots\<close>, null and absent ones left out. In particular, for the
  record that identity A created and identity B submitted again (\<^verbatim>\<open>bot_id\<close> = B,
  \<^verbatim>\<open>seen_by_bots\<close> = [A, B]) it is 2.
\<close>

theorem stats_active_bots:
  assumes "list_all link_identities_ok col"
    and "MONGODB_URI e = Some uri" and "uri \<noteq> []"
  shows "stats_handler e ''GET'' col = Stats (length col) (card (named_bots col))"
proof (cases "col = []")
  case True
  then show ?thesis using assms(2,3) by (simp add: stats_handler_def named_bots_def)
next
  case False
  let ?ub = "group_addToSet ''bot_id'' col"
  let ?us = "group_addToSet ''seen_by_bots'' col"
  let ?all = "add_seen ?us (add_bots ?ub [])"
  have ok: "\<And>d. d \<in> set col \<Longrightarrow> link_identities_ok d"
    using assms(1) by (simp add: list_all_iff)
  have ub: "list_all is_identity ?ub"
    using ok by (auto simp: list_all_iff set_group_addToSet link_identities_ok_def)
  have us: "list_all identity_array ?us"
    unfolding list_all_iff
  proof
    fix a assume "a \<in> set ?us"
    then obtain dd where dd: "dd \<in> set col" "field dd ''seen_by_bots'' = a"
      by (auto simp: set_group_addToSet)
    from ok [OF dd(1)] dd(2) show "identity_array a"
      by (auto simp: link_identities_ok_def identity_array_def split: jsval.splits)
  qed
  have d: "distinct ?all"
    by (intro distinct_add_seen distinct_add_bots us ub) simp
  have "set ?all = Str ` named_bots col"
  proof (rule set_eqI)
    fix v
    show "v \<in> set ?all \<longleftrightarrow> v \<in> Str ` named_bots col"
    proof
      assume "v \<in> set ?all"
      then consider (bot) "v \<in> set ?ub" "truthy v"
        | (seen) ids where "truthy v" "Arr ids \<in> set ?us" "v \<in> set ids"
        by (auto simp: set_add_seen set_add_bots)
      then show "v \<in> Str ` named_bots col"
      proof cases
        case bot
        then obtain dd where dd: "dd \<in> set col" "field dd ''bot_id'' = v"
          by (auto simp: set_group_addToSet)
        then have "is_identity v" using ok [of dd] by (auto simp: link_identities_ok_def)
        with bot(2) obtain b where vb: "v = Str b" by (auto simp: truthy_identity)
        with dd have "b \<in> named_bots col" unfolding named_bots_iff by blast
        with vb show ?thesis by simp
      next
        case seen
        then obtain dd where dd: "dd \<in> set col" "field dd ''seen_by_bots'' = Arr ids"
          by (auto simp: set_group_addToSet)
        then have "list_all is_identity ids" using ok [of dd] by (auto simp: link_identities_ok_def)
        with seen(3) have "is_identity v" by (simp add: list_all_iff)
        with seen(1) obtain b where vb: "v = Str b" by (auto simp: truthy_identity)
        with dd seen(3) have "b \<in> named_bots col" unfolding named_bots_iff by blast
        with vb show ?thesis by simp
      qed
    next
      assume "v \<in> Str ` named_bots col"
      then obtain b where b: "v = Str b" "b \<in> named_bots col" by auto
      then obtain dd where dd: "dd \<in> set col"
        "field dd ''bot_id'' = Str b \<or> (\<exists>ids. field dd ''seen_by_bots'' = Arr ids \<and> Str b \<in> set ids)"
        by (auto simp: named_bots_iff)
      from dd(2) show "v \<in> set ?all"
      proof
        assume f: "field dd ''bot_id'' = Str b"
        then have "is_identity (Str b)" using ok [OF dd(1)] by (auto simp: link_identities_ok_def)
        then have "truthy (Str b)" by (simp add: is_identity_def)
        moreover have "Str b \<in> set ?ub" using f dd(1) by (auto simp: set_group_addToSet)
        ultimately show ?thesis using b(1) by (auto simp: set_add_seen set_add_bots)
      next
        assume "\<exists>ids. field dd ''seen_by_bots'' = Arr ids \<and> Str b \<in> set ids"
        then obtain ids where f: "field dd ''seen_by_bots'' = Arr ids" "Str b \<in> set ids" by auto
        then have "list_all is_identity ids" using ok [OF dd(1)] by (auto simp: link_identities_ok_def)
        with f(2) have "is_identity (Str b)" by (simp add: list_all_iff)
        then have "truthy (Str b)" by (simp add: is_identity_def)
        moreover have "Arr ids \<in> set ?us" using f(1) dd(1) by (auto simp: set_group_addToSet)
        ultimately show ?thesis using b(1) f(2) by (auto simp: set_add_seen)
      qed
    qed
  qed
  then have "card (set ?all) = card (named_bots col)"
    by (simp add: card_image inj_on_def)
  with d have "length ?all = card (named_bots col)"
    by (simp add: distinct_card)
  then show ?thesis
    using False assms(2,3) by (simp add: stats_handler_def Let_def)
qed

theorem stats_active_bots_witness:
  "stats_handler deployment ''GET'' [resubmitted_record] = Stats 1 2"
proof -
  have ok: "list_all link_identities_ok [resubmitted_record]"
    by code_simp
  have uri: "MONGODB_URI deployment = Some ''mongodb://db.test/''" "''mongodb://db.test/'' \<noteq> []"
    by (simp_all add: deployment_def)
  have two: "card (named_bots [resubmitted_record]) = 2"
    by code_simp
  from stats_active_bots [OF ok uri] two show ?thesis by simp
qed


end
